theory Spec2Isabelle
  imports Main "HOL-Library.Word"
begin

section \<open>Data model (src/src/types.ts)\<close>

text \<open>
  JavaScript strings are modelled as \<open>string\<close>, a Buffer as a list of bytes. An optional
  field of an interface (\<open>field?: T\<close>) is a \<open>T option\<close>, \<open>None\<close> standing for
  \<open>undefined\<close>. The interface declares \<open>bucket\<close> as required, but the constructor
  tests it at run time and the unit tests construct the adapter from \<open>{}\<close>, so the
  model keeps it optional as well.
\<close>

type_synonym buffer = "8 word list"

text \<open>
  A JavaScript number: \<open>Integer n\<close> is the integer \<open>n\<close>; \<open>NonInteger\<close> holds every other
  number (a fraction, \<open>NaN\<close>, an infinity), of which the adapter knows nothing. The type
  \<open>number | string\<close> of \<open>maxAge\<close> follows.
\<close>

typedecl other_number

datatype js_number = Integer int | NonInteger other_number

datatype maxAge_value = MaxAgeNumber js_number | MaxAgeString string

record GStoreConfig =
  projectId :: "string option"
  key :: "string option"
  bucket :: "string option"
  assetDomain :: "string option"
  insecure :: "bool option"
  maxAge :: "maxAge_value option"
  uniformBucketLevelAccess :: "bool option"

record Image =
  image_path :: string
  image_name :: string
  image_type :: string

record ReadOptions =
  options_path :: string

text \<open>A thrown or rejected JavaScript \<open>Error\<close>, identified by its message.\<close>

datatype error = Error string

section \<open>The storage client and the other collaborators\<close>

text \<open>
  The object \<open>storageOptions\<close> handed to \<open>new Storage(...)\<close>, and the bucket handle
  \<open>gcs.bucket(name)\<close>, which is opaque to the adapter: the model keeps what it was
  derived from.
\<close>

record StorageOptions =
  keyFilename :: "string option"
  storage_projectId :: "string option"

record Bucket =
  bucket_storage :: StorageOptions
  bucket_name :: string

text \<open>The options object \<open>opts\<close> of \<open>bucket.upload\<close>; \<open>cacheControl\<close> is \<open>opts.metadata.cacheControl\<close>.\<close>

record UploadOptions =
  destination :: string
  cacheControl :: string
  "public" :: "bool option"

text \<open>Every call the adapter makes on the storage client, in the order it makes them.\<close>

datatype client_call =
    NewStorage StorageOptions
  | StorageBucket string
  | BucketUpload Bucket string UploadOptions
  | FileExists Bucket string
  | FileDelete Bucket string
  | FileCreateReadStream Bucket string

text \<open>What a read stream emits to its listeners.\<close>

datatype stream_event = StreamData buffer | StreamEnd | StreamError error

text \<open>
  \<open>getUniqueFileName\<close> is a method of the base class, run on the adapter: on its way to
  a name it may call the adapter's own \<open>exists\<close>, any number of times, and go on
  according to each answer. Its course is a plan: either it settles, or it asks
  \<open>this.exists(filename, targetDir)\<close> and continues with what that call settled to.
  A plan is finite: \<open>getUniqueFileName\<close> is taken to settle after some number of
  questions.
\<close>

datatype name_plan =
    Settled "error + string"
  | AskExists string "string option" "error + bool \<Rightarrow> name_plan"

text \<open>
  The code the adapter calls but does not contain: the base class of ghost-storage-base
  (\<open>getTargetDir\<close>, \<open>getUniqueFileName\<close>), Node's \<open>path.join\<close>, the answers of the
  storage client, and the text the JavaScript runtime prints for a number. An awaited
  promise is a sum, \<open>Inl\<close> the rejection.
\<close>

record collaborators =
  getTargetDir :: string
  getUniqueFileName :: "Image \<Rightarrow> string \<Rightarrow> name_plan"
  path_join :: "string \<Rightarrow> string \<Rightarrow> string"
  Number_toString :: "js_number \<Rightarrow> string"
  bucket_upload :: "Bucket \<Rightarrow> string \<Rightarrow> UploadOptions \<Rightarrow> error + unit"
  file_exists :: "Bucket \<Rightarrow> string \<Rightarrow> error + bool"
  file_delete :: "Bucket \<Rightarrow> string \<Rightarrow> error + unit"
  file_createReadStream :: "Bucket \<Rightarrow> string \<Rightarrow> stream_event list"

section \<open>The adapter (src/src/index.ts)\<close>

text \<open>The private fields of class \<open>GStore\<close>.\<close>

record GStore =
  this_bucket :: Bucket
  this_assetDomain :: string
  this_insecure :: bool
  this_maxAge :: maxAge_value
  this_uniformBucketLevelAccess :: bool
  this_config :: GStoreConfig

text \<open>Truthiness of an optional string: \<open>undefined\<close> and the empty string are falsy.\<close>

definition truthy :: "string option \<Rightarrow> bool" where
  "truthy s = (case s of None \<Rightarrow> False | Some v \<Rightarrow> v \<noteq> [])"

text \<open>\<open>a || d\<close> on an optional string: the default for every falsy \<open>a\<close>.\<close>

definition logical_or :: "string option \<Rightarrow> string \<Rightarrow> string" where
  "logical_or a d = (case a of None \<Rightarrow> d | Some v \<Rightarrow> if v = [] then d else v)"

text \<open>\<open>a ?? d\<close>: the default only for \<open>undefined\<close>.\<close>

definition nullish :: "'a option \<Rightarrow> 'a \<Rightarrow> 'a" where
  "nullish a d = (case a of None \<Rightarrow> d | Some v \<Rightarrow> v)"

text \<open>
  The constructor. It returns the exception or the new object, and the calls made on
  the storage client on the way. The constructor of the base class, which runs first,
  is the host's: it is taken to return normally and to call nothing of the client, and
  so are \<open>new Storage\<close> and \<open>gcs.bucket\<close> on a non-empty name.
\<close>

definition GStore_constructor :: "GStoreConfig \<Rightarrow> (error + GStore) \<times> client_call list" where
  "GStore_constructor config =
     (case bucket config of
        None \<Rightarrow> (Inl (Error ''Google Cloud Storage bucket is required''), [])
      | Some b \<Rightarrow>
          if b = [] then (Inl (Error ''Google Cloud Storage bucket is required''), [])
          else
            let storageOptions =
                  \<lparr> keyFilename = (if truthy (key config) then key config else None),
                    storage_projectId =
                      (if truthy (projectId config) then projectId config else None) \<rparr>
            in (Inr \<lparr> this_bucket = \<lparr> bucket_storage = storageOptions, bucket_name = b \<rparr>,
                      this_assetDomain =
                        logical_or (assetDomain config) (b @ ''.storage.googleapis.com''),
                      this_insecure = nullish (insecure config) False,
                      this_maxAge = nullish (maxAge config) (MaxAgeNumber (Integer 2678400)),
                      this_uniformBucketLevelAccess =
                        nullish (uniformBucketLevelAccess config) False,
                      this_config = config \<rparr>,
                [NewStorage storageOptions, StorageBucket b]))"

definition getBaseUrl :: "GStore \<Rightarrow> string" where
  "getBaseUrl this =
     (let protocol = (if this_insecure this then ''http'' else ''https'')
      in protocol @ ''://'' @ this_assetDomain this @ ''/'')"

definition getConfig :: "GStore \<Rightarrow> GStoreConfig" where
  "getConfig this = this_config this"

text \<open>\<open>filePath.replace(/\\/g, '/')\<close>: every backslash (code 0x5C) becomes a slash.\<close>

definition normalizePathForGCS :: "string \<Rightarrow> string" where
  "normalizePathForGCS filePath = map (\<lambda>c. if c = CHR 0x5C then CHR ''/'' else c) filePath"

text \<open>
  The path \<open>exists\<close> and \<open>delete\<close> build,
  \<open>targetDir ? path.join(targetDir, filename) : filename\<close>, and the path they send,
  \<open>normalizePathForGCS\<close> of it. The test on \<open>targetDir\<close> is one of truthiness.
\<close>

definition built_path :: "collaborators \<Rightarrow> string \<Rightarrow> string option \<Rightarrow> string" where
  "built_path env filename targetDir =
     (case targetDir of
        None \<Rightarrow> filename
      | Some dir \<Rightarrow> if dir = [] then filename else path_join env dir filename)"

definition object_path :: "collaborators \<Rightarrow> string \<Rightarrow> string option \<Rightarrow> string" where
  "object_path env filename targetDir = normalizePathForGCS (built_path env filename targetDir)"

definition exists :: "collaborators \<Rightarrow> GStore \<Rightarrow> string \<Rightarrow> string option \<Rightarrow> (error + bool) \<times> client_call list" where
  "exists env this filename targetDir =
     (let filePath = object_path env filename targetDir
      in (case file_exists env (this_bucket this) filePath of
            Inl e \<Rightarrow> Inl e
          | Inr found \<Rightarrow> Inr found,
          [FileExists (this_bucket this) filePath]))"

definition delete :: "collaborators \<Rightarrow> GStore \<Rightarrow> string \<Rightarrow> string option \<Rightarrow> (error + bool) \<times> client_call list" where
  "delete env this filename targetDir =
     (let filePath = object_path env filename targetDir
      in (case file_delete env (this_bucket this) filePath of
            Inl e \<Rightarrow> Inl e
          | Inr _ \<Rightarrow> Inr True,
          [FileDelete (this_bucket this) filePath]))"

text \<open>
  Running a plan of \<open>getUniqueFileName\<close> against the adapter's \<open>exists\<close>, here \<open>ex\<close>:
  what the plan settles to, and the calls on the client its questions caused.
\<close>

primrec run_plan :: "(string \<Rightarrow> string option \<Rightarrow> (error + bool) \<times> client_call list) \<Rightarrow> name_plan \<Rightarrow> (error + string) \<times> client_call list" where
  "run_plan ex (Settled r) = (r, [])"
| "run_plan ex (AskExists filename targetDir continue) =
     (case ex filename targetDir of
        (answer, calls) \<Rightarrow>
          (case run_plan ex (continue answer) of (r, calls') \<Rightarrow> (r, calls @ calls')))"

text \<open>
  The template literal \<open>${this.maxAge}\<close>: a string is inserted as it is, a number as
  the runtime prints it. For a safe integer (one of magnitude at most \<open>2^53 - 1\<close>) that
  is its decimal notation, with a minus sign when it is negative; what the runtime
  prints for any other number is the collaborator's to say.
\<close>

definition is_safe_integer :: "int \<Rightarrow> bool" where
  "is_safe_integer n = (\<bar>n\<bar> \<le> 9007199254740991)"

definition digit_char :: "nat \<Rightarrow> char" where
  "digit_char d =
     (if d = 0 then CHR ''0'' else if d = 1 then CHR ''1'' else if d = 2 then CHR ''2''
      else if d = 3 then CHR ''3'' else if d = 4 then CHR ''4'' else if d = 5 then CHR ''5''
      else if d = 6 then CHR ''6'' else if d = 7 then CHR ''7'' else if d = 8 then CHR ''8''
      else CHR ''9'')"

fun digits :: "nat \<Rightarrow> string" where
  "digits n = (if n < 10 then [digit_char n] else digits (n div 10) @ [digit_char (n mod 10)])"

declare digits.simps [simp del]

definition number_toString :: "collaborators \<Rightarrow> js_number \<Rightarrow> string" where
  "number_toString env x =
     (case x of
        Integer n \<Rightarrow>
          if is_safe_integer n
          then (if n < 0 then ''-'' @ digits (nat (- n)) else digits (nat n))
          else Number_toString env x
      | NonInteger y \<Rightarrow> Number_toString env x)"

definition maxAge_toString :: "collaborators \<Rightarrow> maxAge_value \<Rightarrow> string" where
  "maxAge_toString env m =
     (case m of MaxAgeString s \<Rightarrow> s | MaxAgeNumber x \<Rightarrow> number_toString env x)"

text \<open>
  \<open>save\<close>; \<open>save_opts\<close> is the object \<open>opts\<close> it builds. The calls on the client are
  those \<open>getUniqueFileName\<close> caused through \<open>this.exists\<close>, then the upload. A rejection
  of \<open>getUniqueFileName\<close> ends the call before the upload; a rejection of the upload is
  the call's rejection.
\<close>

definition save_opts :: "collaborators \<Rightarrow> GStore \<Rightarrow> string \<Rightarrow> UploadOptions" where
  "save_opts env this targetFilename =
     (let opts = \<lparr> destination = targetFilename,
                   cacheControl = ''public, max-age='' @ maxAge_toString env (this_maxAge this),
                   public = None \<rparr>
      in if \<not> this_uniformBucketLevelAccess this then opts\<lparr> public := Some True \<rparr> else opts)"

definition save :: "collaborators \<Rightarrow> GStore \<Rightarrow> Image \<Rightarrow> (error + string) \<times> client_call list" where
  "save env this img =
     (let targetDir = getTargetDir env
      in case run_plan (exists env this) (getUniqueFileName env img targetDir) of
           (Inl e, name_calls) \<Rightarrow> (Inl e, name_calls)
         | (Inr unique, name_calls) \<Rightarrow>
             let targetFilename = normalizePathForGCS unique;
                 baseUrl = getBaseUrl this;
                 opts = save_opts env this targetFilename;
                 calls = name_calls @ [BucketUpload (this_bucket this) (image_path img) opts]
             in case bucket_upload env (this_bucket this) (image_path img) opts of
                  Inl e \<Rightarrow> (Inl e, calls)
                | Inr _ \<Rightarrow> (Inr (baseUrl @ targetFilename), calls))"

text \<open>
  \<open>read\<close>. The three listeners share the variable \<open>contents\<close> and the promise; a
  promise keeps its first settlement, later calls of \<open>resolve\<close> or \<open>reject\<close> do nothing.
  A Buffer is an object, hence truthy even when empty: \<open>!contents\<close> holds exactly for
  \<open>null\<close>.
\<close>

record read_state =
  contents :: "buffer option"
  promise :: "(error + buffer) option"

definition settle :: "(error + buffer) \<Rightarrow> read_state \<Rightarrow> read_state" where
  "settle r s = (case promise s of None \<Rightarrow> s\<lparr> promise := Some r \<rparr> | Some _ \<Rightarrow> s)"

fun on_event :: "read_state \<Rightarrow> stream_event \<Rightarrow> read_state" where
  "on_event s (StreamError err) = settle (Inl err) s"
| "on_event s (StreamData data) =
     (case contents s of
        None \<Rightarrow> s\<lparr> contents := Some data \<rparr>
      | Some c \<Rightarrow> s\<lparr> contents := Some (c @ data) \<rparr>)"
| "on_event s StreamEnd =
     settle (Inr (case contents s of None \<Rightarrow> [] | Some c \<Rightarrow> c)) s"

definition read_events :: "stream_event list \<Rightarrow> (error + buffer) option" where
  "read_events evs = promise (foldl on_event \<lparr> contents = None, promise = None \<rparr> evs)"

text \<open>The promise of \<open>read\<close>: \<open>None\<close> while it is pending, which it stays when the
  stream never ends.\<close>

definition read :: "collaborators \<Rightarrow> GStore \<Rightarrow> ReadOptions \<Rightarrow> (error + buffer) option \<times> client_call list" where
  "read env this options =
     (read_events (file_createReadStream env (this_bucket this) (options_path options)),
      [FileCreateReadStream (this_bucket this) (options_path options)])"

section \<open>Configurations of the test suite\<close>

text \<open>
  The configurations the unit tests construct the adapter from: the minimal one, the
  full one, and the object \<open>{}\<close>.
\<close>

definition config_minimal :: GStoreConfig where
  "config_minimal =
     \<lparr> projectId = None, key = None, bucket = Some ''test-bucket'', assetDomain = None,
       insecure = None, maxAge = None, uniformBucketLevelAccess = None \<rparr>"

definition config_full :: GStoreConfig where
  "config_full =
     \<lparr> projectId = Some ''my-project'', key = Some ''/path/to/key.json'',
       bucket = Some ''test-bucket'', assetDomain = Some ''cdn.example.com'',
       insecure = Some True, maxAge = Some (MaxAgeNumber (Integer 3600)),
       uniformBucketLevelAccess = None \<rparr>"

definition config_empty :: GStoreConfig where
  "config_empty =
     \<lparr> projectId = None, key = None, bucket = None, assetDomain = None,
       insecure = None, maxAge = None, uniformBucketLevelAccess = None \<rparr>"

text \<open>
  Three more: a custom asset domain written with a slash at its end, one left empty,
  and a bucket with uniform bucket-level access.
\<close>

definition config_domain_slash :: GStoreConfig where
  "config_domain_slash = config_minimal\<lparr> assetDomain := Some ''cdn.example.com/'' \<rparr>"

definition config_domain_empty :: GStoreConfig where
  "config_domain_empty = config_minimal\<lparr> assetDomain := Some [] \<rparr>"

definition config_uniform :: GStoreConfig where
  "config_uniform = config_minimal\<lparr> uniformBucketLevelAccess := Some True \<rparr>"

text \<open>One with the max-age as a string, as the property tests draw it.\<close>

definition config_maxAge_string :: GStoreConfig where
  "config_maxAge_string = config_minimal\<lparr> maxAge := Some (MaxAgeString ''86400'') \<rparr>"

section \<open>Collaborators of the test suite\<close>

text \<open>
  \<open>path.join\<close> of a POSIX host, for paths without \<open>.\<close> and \<open>..\<close> segments: empty
  arguments are left out, the others joined with a slash and every run of slashes made
  one; nothing at all gives \<open>.\<close>.
\<close>

fun collapse_slashes :: "string \<Rightarrow> string" where
  "collapse_slashes (c # d # rest) =
     (if c = CHR ''/'' \<and> d = CHR ''/'' then collapse_slashes (d # rest)
      else c # collapse_slashes (d # rest))"
| "collapse_slashes cs = cs"

definition posix_join :: "string \<Rightarrow> string \<Rightarrow> string" where
  "posix_join dir filename =
     (if dir = [] \<and> filename = [] then ''.''
      else collapse_slashes
        (if dir = [] then filename else if filename = [] then dir
         else dir @ ''/'' @ filename))"

text \<open>
  The mocks of the test suite: the base class answers \<open>2024/01\<close> and
  \<open>2024/01/{name}\<close> without a question, every call on the client succeeds, a file
  exists. No test configures a number that is not a safe integer; the text of those is
  left fixed.
\<close>

definition env_test :: collaborators where
  "env_test =
     \<lparr> getTargetDir = ''2024/01'',
       getUniqueFileName = (\<lambda>img targetDir. Settled (Inr (''2024/01/'' @ image_name img))),
       path_join = posix_join,
       Number_toString = (\<lambda>x. ''NaN''),
       bucket_upload = (\<lambda>bk src opts. Inr ()),
       file_exists = (\<lambda>bk p. Inr True),
       file_delete = (\<lambda>bk p. Inr ()),
       file_createReadStream = (\<lambda>bk p. [StreamEnd]) \<rparr>"

text \<open>
  A base class that asks, as the one of ghost-storage-base does for a name that is
  free: once, whether the name exists in the target directory; told that it does not,
  it settles on the directory joined with the name, and on any other answer it
  rejects. The bucket of this host holds no file.
\<close>

definition env_fresh :: collaborators where
  "env_fresh =
     env_test
       \<lparr> getUniqueFileName :=
           (\<lambda>img targetDir.
              AskExists (image_name img) (Some targetDir)
                (\<lambda>answer. case answer of
                     Inl e \<Rightarrow> Settled (Inl e)
                   | Inr found \<Rightarrow>
                       if found then Settled (Inl (Error ''name taken''))
                       else Settled (Inr (posix_join targetDir (image_name img))))),
         file_exists := (\<lambda>bk p. Inr False) \<rparr>"

text \<open>A Windows host: unique names and joined paths come with backslashes.\<close>

definition env_windows :: collaborators where
  "env_windows =
     env_test
       \<lparr> getUniqueFileName :=
           (\<lambda>img targetDir.
              Settled (Inr (''2024'' @ [CHR 0x5C] @ ''01'' @ [CHR 0x5C] @ image_name img))),
         path_join :=
           (\<lambda>dir filename. if dir = [] then filename else dir @ [CHR 0x5C] @ filename) \<rparr>"

text \<open>The image of the unit tests.\<close>

definition image_test :: Image where
  "image_test = \<lparr> image_path = ''/tmp/test.jpg'', image_name = ''test.jpg'',
                  image_type = ''image/jpeg'' \<rparr>"

text \<open>The rejections the unit tests inject.\<close>

definition env_failing :: collaborators where
  "env_failing =
     env_test
       \<lparr> bucket_upload := (\<lambda>bk src opts. Inl (Error ''Upload failed'')),
         file_exists := (\<lambda>bk p. Inl (Error ''Check failed'')),
         file_delete := (\<lambda>bk p. Inl (Error ''Delete failed'')),
         file_createReadStream := (\<lambda>bk p. [StreamError (Error ''Stream error'')]) \<rparr>"

text \<open>A stream of three chunks, the second one empty, and the options of a read.\<close>

definition chunks_test :: "buffer list" where
  "chunks_test = [[0x74, 0x65], [], [0x73, 0x74]]"

definition env_chunks :: collaborators where
  "env_chunks =
     env_test\<lparr> file_createReadStream := (\<lambda>bk p. map StreamData chunks_test @ [StreamEnd]) \<rparr>"

definition options_test :: ReadOptions where
  "options_test = \<lparr> options_path = ''test.jpg'' \<rparr>"

section \<open>Properties as the specification words them\<close>

text \<open>
  ``The base URL ends with a single trailing separator'': the last character is a
  slash and the one before it, if there is one, is not.
\<close>

definition ends_with_single_slash :: "string \<Rightarrow> bool" where
  "ends_with_single_slash url =
     (case rev url of
        [] \<Rightarrow> False
      | c # before \<Rightarrow>
          c = CHR ''/'' \<and> (case before of [] \<Rightarrow> True | c' # _ \<Rightarrow> c' \<noteq> CHR ''/''))"


text \<open>
  ``Exactly \<open>max-age={maxAge}\<close>'' for a number: its decimal numeral. A numeral is a
  non-empty row of digits without a leading zero, but for zero itself, after a minus
  sign if the number is negative; its value is read digit by digit, a digit being
  worth its place among the ten.
\<close>

definition is_digit :: "char \<Rightarrow> bool" where
  "is_digit c = (c \<in> set ''0123456789'')"

definition digit_value :: "char \<Rightarrow> nat" where
  "digit_value c = length (takeWhile (\<lambda>d. d \<noteq> c) ''0123456789'')"

definition decimal_value :: "string \<Rightarrow> nat" where
  "decimal_value ds = foldl (\<lambda>a c. 10 * a + digit_value c) 0 ds"

definition canonical_digits :: "string \<Rightarrow> bool" where
  "canonical_digits ds =
     (ds \<noteq> [] \<and> list_all is_digit ds \<and> (ds = ''0'' \<or> hd ds \<noteq> CHR ''0''))"

definition decimal_numeral :: "int \<Rightarrow> string \<Rightarrow> bool" where
  "decimal_numeral n s =
     (case s of
        [] \<Rightarrow> False
      | c # r \<Rightarrow>
          if c = CHR ''-'' then n < 0 \<and> canonical_digits r \<and> int (decimal_value r) = - n
          else 0 \<le> n \<and> canonical_digits s \<and> int (decimal_value s) = n)"

section \<open>The constructor\<close>

lemma constructor_fails:
  "bucket config = None \<or> bucket config = Some [] \<Longrightarrow>
   GStore_constructor config = (Inl (Error ''Google Cloud Storage bucket is required''), [])"
  by (auto simp: GStore_constructor_def)

lemma constructor_succeeds:
  assumes "bucket config = Some b" and "b \<noteq> []"
  shows "GStore_constructor config =
     (Inr \<lparr> this_bucket =
              \<lparr> bucket_storage =
                  \<lparr> keyFilename = (if truthy (key config) then key config else None),
                    storage_projectId =
                      (if truthy (projectId config) then projectId config else None) \<rparr>,
                bucket_name = b \<rparr>,
            this_assetDomain = logical_or (assetDomain config) (b @ ''.storage.googleapis.com''),
            this_insecure = nullish (insecure config) False,
            this_maxAge = nullish (maxAge config) (MaxAgeNumber (Integer 2678400)),
            this_uniformBucketLevelAccess = nullish (uniformBucketLevelAccess config) False,
            this_config = config \<rparr>,
      [NewStorage \<lparr> keyFilename = (if truthy (key config) then key config else None),
                    storage_projectId =
                      (if truthy (projectId config) then projectId config else None) \<rparr>,
       StorageBucket b])"
  using assms by (simp add: GStore_constructor_def Let_def)

text \<open>What a successful construction tells about the object and the configuration.\<close>

lemma constructor_InrD:
  assumes "GStore_constructor config = (Inr this, calls)"
  obtains b where "bucket config = Some b" and "b \<noteq> []"
    and "this_assetDomain this = logical_or (assetDomain config) (b @ ''.storage.googleapis.com'')"
    and "this_insecure this = nullish (insecure config) False"
    and "this_maxAge this = nullish (maxAge config) (MaxAgeNumber (Integer 2678400))"
    and "this_uniformBucketLevelAccess this = nullish (uniformBucketLevelAccess config) False"
    and "this_config this = config"
    and "calls = [NewStorage (bucket_storage (this_bucket this)), StorageBucket b]"
    and "bucket_name (this_bucket this) = b"
proof (cases "bucket config")
  case None
  with assms show ?thesis by (simp add: GStore_constructor_def)
next
  case (Some b)
  show ?thesis
  proof (cases "b = []")
    case True
    with Some assms show ?thesis by (simp add: GStore_constructor_def)
  next
    case False
    from constructor_succeeds [OF Some False] assms
    show ?thesis using that [OF Some False] by auto
  qed
qed

text \<open>
  Claim C7. A configuration whose bucket is missing or empty makes the constructor
  throw, at once, the error on the missing bucket (a plain \<open>Error\<close> with the message
  below), and by then it has called nothing of the storage client: no client was made,
  no bucket handle derived. With a non-empty bucket the constructor returns the
  object, having made the client and derived the handle of that bucket.
\<close>

theorem constructor_bucket_required:
  "((bucket config = None \<or> bucket config = Some []) \<longrightarrow>
      GStore_constructor config =
        (Inl (Error ''Google Cloud Storage bucket is required''), []))
   \<and> (\<forall>b. bucket config = Some b \<and> b \<noteq> [] \<longrightarrow>
          (\<exists>this. GStore_constructor config =
             (Inr this, [NewStorage (bucket_storage (this_bucket this)), StorageBucket b])))"
proof (intro conjI impI allI)
  assume "bucket config = None \<or> bucket config = Some []"
  then show "GStore_constructor config =
      (Inl (Error ''Google Cloud Storage bucket is required''), [])"
    by (rule constructor_fails)
next
  fix b
  assume "bucket config = Some b \<and> b \<noteq> []"
  then show "\<exists>this. GStore_constructor config =
      (Inr this, [NewStorage (bucket_storage (this_bucket this)), StorageBucket b])"
    by (simp add: constructor_succeeds)
qed

theorem constructor_bucket_required_witness:
  "GStore_constructor config_empty =
     (Inl (Error ''Google Cloud Storage bucket is required''), [])
   \<and> GStore_constructor (config_minimal\<lparr> bucket := Some [] \<rparr>) =
     (Inl (Error ''Google Cloud Storage bucket is required''), [])
   \<and> (\<exists>this. GStore_constructor config_minimal =
         (Inr this,
          [NewStorage (bucket_storage (this_bucket this)), StorageBucket ''test-bucket'']))"
  using constructor_bucket_required [of config_empty]
    constructor_bucket_required [of "config_minimal\<lparr> bucket := Some [] \<rparr>"]
    constructor_bucket_required [of config_minimal]
  by (simp add: config_empty_def config_minimal_def)

section \<open>The accessors\<close>

text \<open>
  Claim C3, as stated, fails: constructed from the minimal configuration, which omits
  \<open>insecure\<close>, \<open>maxAge\<close> and \<open>uniformBucketLevelAccess\<close>, the adapter's
  \<open>getConfig\<close> returns these three fields still omitted, not their defaults.
\<close>

theorem getConfig_defaults_counterexample:
  "(case fst (GStore_constructor config_minimal) of
      Inl err \<Rightarrow> False
    | Inr this \<Rightarrow>
        insecure (getConfig this) = None \<and> maxAge (getConfig this) = None \<and>
        uniformBucketLevelAccess (getConfig this) = None \<and>
        insecure (getConfig this) \<noteq> Some False \<and>
        maxAge (getConfig this) \<noteq> Some (MaxAgeNumber (Integer 2678400)) \<and>
        uniformBucketLevelAccess (getConfig this) \<noteq> Some False)"
  by (simp add: GStore_constructor_def config_minimal_def getConfig_def Let_def)

text \<open>
  Claim C3, amended. For every configuration the constructor accepts, \<open>getConfig\<close>
  returns that very configuration: a supplied field as supplied, an omitted field
  omitted. The documented defaults are those of the adapter's own settings, which
  \<open>getBaseUrl\<close> and \<open>save\<close> read: \<open>insecure\<close> is false, \<open>maxAge\<close> is 2678400 and
  \<open>uniformBucketLevelAccess\<close> is false where the configuration omits them.
\<close>

theorem getConfig_returns_config:
  assumes "GStore_constructor config = (Inr this, calls)"
  shows "getConfig this = config
    \<and> this_insecure this = (case insecure config of None \<Rightarrow> False | Some v \<Rightarrow> v)
    \<and> this_maxAge this = (case maxAge config of None \<Rightarrow> MaxAgeNumber (Integer 2678400) | Some v \<Rightarrow> v)
    \<and> this_uniformBucketLevelAccess this =
        (case uniformBucketLevelAccess config of None \<Rightarrow> False | Some v \<Rightarrow> v)"
  using assms by (elim constructor_InrD) (simp add: getConfig_def nullish_def)

theorem getConfig_returns_config_witness:
  "(\<exists>this calls. GStore_constructor config_full = (Inr this, calls)
      \<and> getConfig this = config_full
      \<and> this_insecure this = True
      \<and> this_maxAge this = MaxAgeNumber (Integer 3600)
      \<and> this_uniformBucketLevelAccess this = False)"
proof -
  obtain this calls where c: "GStore_constructor config_full = (Inr this, calls)"
    by (simp add: GStore_constructor_def config_full_def Let_def)
  from getConfig_returns_config [OF c] c show ?thesis
    by (simp add: config_full_def)
qed

lemma ends_with_single_slash_append:
  "d \<noteq> [] \<Longrightarrow> ends_with_single_slash (p @ d @ ''/'') = (last d \<noteq> CHR ''/'')"
  by (cases d rule: rev_cases) (simp_all add: ends_with_single_slash_def)

lemma logical_or_nonempty: "d \<noteq> [] \<Longrightarrow> logical_or a d \<noteq> []"
  by (simp add: logical_or_def split: option.splits)

text \<open>
  Claim C2, as stated, fails twice. A custom asset domain that itself ends with a slash
  gives a base URL that ends with two slashes; and a custom asset domain supplied as
  the empty string is not used: the base URL has the domain derived from the bucket.
\<close>

theorem getBaseUrl_counterexample:
  "(case fst (GStore_constructor config_domain_slash) of
      Inl err \<Rightarrow> False
    | Inr this \<Rightarrow>
        getBaseUrl this = ''https://cdn.example.com//'' \<and>
        \<not> ends_with_single_slash (getBaseUrl this))
   \<and> (case fst (GStore_constructor config_domain_empty) of
      Inl err \<Rightarrow> False
    | Inr this \<Rightarrow>
        assetDomain (getConfig this) = Some [] \<and>
        getBaseUrl this = ''https://test-bucket.storage.googleapis.com/'' \<and>
        getBaseUrl this \<noteq> ''https:///'')"
  by (simp add: GStore_constructor_def config_domain_slash_def config_domain_empty_def
      config_minimal_def getBaseUrl_def getConfig_def Let_def logical_or_def nullish_def
      truthy_def ends_with_single_slash_def)

text \<open>
  Claim C2, amended. For every configuration the constructor accepts, \<open>getBaseUrl\<close>
  returns \<open>{protocol}://{domain}/\<close>, where the protocol is \<open>http\<close> if \<open>insecure\<close> is
  true and \<open>https\<close> otherwise, and the domain is the custom asset domain when one is
  supplied and not empty, and \<open>{bucket}.storage.googleapis.com\<close> otherwise. The result
  always ends with a slash; it ends with exactly one slash if and only if the domain
  does not itself end with one, which is so whenever the domain is the bucket's.
\<close>

theorem getBaseUrl_format:
  assumes "GStore_constructor config = (Inr this, calls)"
    and "bucket config = Some b"
  shows "getBaseUrl this =
       (if insecure config = Some True then ''http'' else ''https'') @ ''://'' @
       (case assetDomain config of
          None \<Rightarrow> b @ ''.storage.googleapis.com''
        | Some d \<Rightarrow> if d = [] then b @ ''.storage.googleapis.com'' else d) @ ''/''
     \<and> last (getBaseUrl this) = CHR ''/''
     \<and> (ends_with_single_slash (getBaseUrl this) \<longleftrightarrow>
          last (case assetDomain config of
                  None \<Rightarrow> b @ ''.storage.googleapis.com''
                | Some d \<Rightarrow> if d = [] then b @ ''.storage.googleapis.com'' else d) \<noteq> CHR ''/'')
     \<and> (\<not> truthy (assetDomain config) \<longrightarrow> ends_with_single_slash (getBaseUrl this))"
proof -
  let ?dflt = "b @ ''.storage.googleapis.com''"
  let ?proto = "(if insecure config = Some True then ''http'' else ''https'') @ ''://''"
  from assms have dom: "this_assetDomain this = logical_or (assetDomain config) ?dflt"
    and ins: "this_insecure this = nullish (insecure config) False"
    by (auto elim!: constructor_InrD)
  have ne: "logical_or (assetDomain config) ?dflt \<noteq> []"
    by (rule logical_or_nonempty) simp
  have lo: "logical_or (assetDomain config) ?dflt =
      (case assetDomain config of None \<Rightarrow> ?dflt | Some d \<Rightarrow> if d = [] then ?dflt else d)"
    by (simp add: logical_or_def)
  have url: "getBaseUrl this = ?proto @ logical_or (assetDomain config) ?dflt @ ''/''"
    by (cases "insecure config") (simp_all add: getBaseUrl_def dom ins nullish_def)
  have single: "ends_with_single_slash (getBaseUrl this) \<longleftrightarrow>
      last (logical_or (assetDomain config) ?dflt) \<noteq> CHR ''/''"
    unfolding url by (rule ends_with_single_slash_append [OF ne])
  have dflt: "\<not> truthy (assetDomain config) \<longrightarrow> ends_with_single_slash (getBaseUrl this)"
    unfolding single by (auto simp: truthy_def logical_or_def split: option.splits)
  have lst: "last (getBaseUrl this) = CHR ''/''"
    unfolding url by simp
  from url single dflt lst show ?thesis
    unfolding lo by simp
qed

theorem getBaseUrl_format_witness:
  "(\<exists>this calls. GStore_constructor config_full = (Inr this, calls)
      \<and> getBaseUrl this = ''http://cdn.example.com/''
      \<and> ends_with_single_slash (getBaseUrl this))
   \<and> (\<exists>this calls. GStore_constructor config_minimal = (Inr this, calls)
      \<and> getBaseUrl this = ''https://test-bucket.storage.googleapis.com/''
      \<and> ends_with_single_slash (getBaseUrl this))"
proof -
  obtain t1 c1 where c1: "GStore_constructor config_full = (Inr t1, c1)"
    by (simp add: GStore_constructor_def config_full_def Let_def)
  obtain t2 c2 where c2: "GStore_constructor config_minimal = (Inr t2, c2)"
    by (simp add: GStore_constructor_def config_minimal_def Let_def)
  have b1: "bucket config_full = Some ''test-bucket''" by (simp add: config_full_def)
  have b2: "bucket config_minimal = Some ''test-bucket''" by (simp add: config_minimal_def)
  from getBaseUrl_format [OF c1 b1] have
    "getBaseUrl t1 = ''http://cdn.example.com/'' \<and> ends_with_single_slash (getBaseUrl t1)"
    by (simp add: config_full_def ends_with_single_slash_def)
  moreover from getBaseUrl_format [OF c2 b2] have
    "getBaseUrl t2 = ''https://test-bucket.storage.googleapis.com/''
      \<and> ends_with_single_slash (getBaseUrl t2)"
    by (simp add: config_minimal_def truthy_def ends_with_single_slash_def)
  ultimately show ?thesis using c1 c2 by blast
qed

section \<open>Path normalization and the printing of numbers\<close>

lemma normalizePathForGCS_no_backslash: "CHR 0x5C \<notin> set (normalizePathForGCS p)"
  by (auto simp: normalizePathForGCS_def)

lemma normalizePathForGCS_length: "length (normalizePathForGCS p) = length p"
  by (simp add: normalizePathForGCS_def)

lemma normalizePathForGCS_nth:
  "i < length p \<Longrightarrow>
   normalizePathForGCS p ! i = (if p ! i = CHR 0x5C then CHR ''/'' else p ! i)"
  by (simp add: normalizePathForGCS_def)

lemma digit_cases:
  "d < 10 \<Longrightarrow>
   d = 0 \<or> d = 1 \<or> d = 2 \<or> d = 3 \<or> d = 4 \<or> d = 5 \<or> d = 6 \<or> d = 7 \<or> d = 8 \<or> d = (9::nat)"
  by arith

lemma digit_value_digit_char: "d < 10 \<Longrightarrow> digit_value (digit_char d) = d"
  using digit_cases [of d] by (auto simp: digit_char_def digit_value_def)

lemma is_digit_digit_char: "is_digit (digit_char d)"
  by (simp add: digit_char_def is_digit_def)

lemma digit_char_zero: "d < 10 \<Longrightarrow> digit_char d = CHR ''0'' \<longleftrightarrow> d = 0"
  using digit_cases [of d] by (auto simp: digit_char_def)

lemma decimal_value_snoc:
  "decimal_value (ds @ [c]) = 10 * decimal_value ds + digit_value c"
  by (simp add: decimal_value_def)

lemma digits_nonempty: "digits n \<noteq> []"
  by (subst digits.simps) simp

lemma digits_all: "list_all is_digit (digits n)"
proof (induction n rule: digits.induct)
  case (1 n)
  show ?case
    by (subst digits.simps) (simp add: is_digit_digit_char 1)
qed

text \<open>The digits of a number read back as that number.\<close>

lemma decimal_value_digits: "decimal_value (digits n) = n"
proof (induction n rule: digits.induct)
  case (1 n)
  show ?case
  proof (cases "n < 10")
    case True
    then show ?thesis
      by (subst digits.simps) (simp add: decimal_value_def digit_value_digit_char)
  next
    case False
    with 1 have "decimal_value (digits (n div 10)) = n div 10" by simp
    with False show ?thesis
      by (subst digits.simps) (simp add: decimal_value_snoc digit_value_digit_char)
  qed
qed

lemma hd_digits: "n \<noteq> 0 \<Longrightarrow> hd (digits n) \<noteq> CHR ''0''"
proof (induction n rule: digits.induct)
  case (1 n)
  show ?case
  proof (cases "n < 10")
    case True
    with 1(2) show ?thesis
      by (subst digits.simps) (simp add: digit_char_zero)
  next
    case False
    then have "n div 10 \<noteq> 0" by simp
    with 1(1) False have "hd (digits (n div 10)) \<noteq> CHR ''0''" by simp
    with False show ?thesis
      by (subst digits.simps) (simp add: digits_nonempty)
  qed
qed

lemma digits_zero: "digits 0 = ''0''"
  by (simp add: digits.simps digit_char_def)

lemma canonical_digits_digits: "canonical_digits (digits n)"
  by (cases "n = 0")
    (simp_all add: canonical_digits_def digits_nonempty digits_all hd_digits digits_zero
      is_digit_def)

lemma hd_digits_not_minus: "hd (digits n) \<noteq> CHR ''-''"
proof -
  from digits_all [of n] digits_nonempty [of n] have "is_digit (hd (digits n))"
    by (cases "digits n") simp_all
  then show ?thesis by (auto simp: is_digit_def)
qed

text \<open>What the adapter prints for a safe integer is its decimal numeral.\<close>

lemma number_toString_numeral:
  assumes "is_safe_integer n"
  shows "decimal_numeral n (number_toString env (Integer n))"
proof (cases "n < 0")
  case True
  with assms have "number_toString env (Integer n) = CHR ''-'' # digits (nat (- n))"
    by (simp add: number_toString_def)
  with True show ?thesis
    by (simp add: decimal_numeral_def canonical_digits_digits decimal_value_digits)
next
  case False
  with assms have p: "number_toString env (Integer n) = digits (nat n)"
    by (simp add: number_toString_def)
  obtain c r where d: "digits (nat n) = c # r"
    using digits_nonempty [of "nat n"] by (cases "digits (nat n)") auto
  with hd_digits_not_minus [of "nat n"] have "c \<noteq> CHR ''-''" by simp
  with False d canonical_digits_digits [of "nat n"] decimal_value_digits [of "nat n"]
  show ?thesis
    by (simp add: p decimal_numeral_def)
qed

lemma number_toString_other:
  "(\<forall>n. x = Integer n \<longrightarrow> \<not> is_safe_integer n) \<Longrightarrow>
   number_toString env x = Number_toString env x"
  by (cases x) (simp_all add: number_toString_def)

lemma digits_default: "digits 2678400 = ''2678400''"
  by (simp add: digits.simps digit_char_def)

lemma maxAge_toString_default:
  "maxAge_toString env (MaxAgeNumber (Integer 2678400)) = ''2678400''"
  by (simp add: maxAge_toString_def number_toString_def is_safe_integer_def digits_default)

section \<open>exists and delete, as equations\<close>

lemma exists_eq:
  "exists env this filename targetDir =
     (file_exists env (this_bucket this)
        (normalizePathForGCS (built_path env filename targetDir)),
      [FileExists (this_bucket this) (normalizePathForGCS (built_path env filename targetDir))])"
  by (simp add: exists_def object_path_def Let_def split: sum.splits)

lemma delete_eq:
  "delete env this filename targetDir =
     (case file_delete env (this_bucket this)
             (normalizePathForGCS (built_path env filename targetDir)) of
        Inl e \<Rightarrow> Inl e
      | Inr u \<Rightarrow> Inr True,
      [FileDelete (this_bucket this) (normalizePathForGCS (built_path env filename targetDir))])"
  by (simp add: delete_def object_path_def Let_def)

lemma built_path_None: "built_path env filename None = filename"
  by (simp add: built_path_def)

lemma built_path_empty: "built_path env filename (Some []) = filename"
  by (simp add: built_path_def)

lemma built_path_Some:
  "dir \<noteq> [] \<Longrightarrow> built_path env filename (Some dir) = path_join env dir filename"
  by (simp add: built_path_def)

section \<open>save\<close>

text \<open>
  Whatever \<open>getUniqueFileName\<close> does, the calls it causes on the client are existence
  queries, each of a normalized path.
\<close>

lemma run_plan_calls:
  "c \<in> set (snd (run_plan (exists env this) plan)) \<Longrightarrow>
   \<exists>filename targetDir.
     c = FileExists (this_bucket this) (normalizePathForGCS (built_path env filename targetDir))"
proof (induction plan)
  case (Settled r)
  then show ?case by simp
next
  case (AskExists filename targetDir continue)
  let ?answer = "fst (exists env this filename targetDir)"
  from AskExists.prems have
    "c \<in> set (snd (exists env this filename targetDir)) \<or>
     c \<in> set (snd (run_plan (exists env this) (continue ?answer)))"
    by (auto split: prod.splits)
  then show ?case
  proof
    assume "c \<in> set (snd (exists env this filename targetDir))"
    then show ?thesis by (auto simp: exists_eq)
  next
    assume "c \<in> set (snd (run_plan (exists env this) (continue ?answer)))"
    then show ?thesis by (rule AskExists.IH [OF rangeI])
  qed
qed

lemma run_plan_no_upload:
  "BucketUpload bk src opts \<notin> set (snd (run_plan (exists env this) plan))"
  using run_plan_calls [of "BucketUpload bk src opts" env this plan] by auto

lemma run_plan_no_backslash:
  "FileExists bk p \<in> set (snd (run_plan (exists env this) plan)) \<Longrightarrow> CHR 0x5C \<notin> set p"
  using run_plan_calls [of "FileExists bk p" env this plan]
  by (auto simp: normalizePathForGCS_no_backslash)

lemma destination_save_opts: "destination (save_opts env this f) = f"
  by (simp add: save_opts_def Let_def)

lemma cacheControl_save_opts:
  "cacheControl (save_opts env this f) =
     ''public, max-age='' @ maxAge_toString env (this_maxAge this)"
  by (simp add: save_opts_def Let_def)

lemma public_save_opts:
  "public (save_opts env this f) =
     (if this_uniformBucketLevelAccess this then None else Some True)"
  by (simp add: save_opts_def Let_def)

lemma save_rejected_name:
  "run_plan (exists env this) (getUniqueFileName env img (getTargetDir env)) = (Inl e, cs) \<Longrightarrow>
   save env this img = (Inl e, cs)"
  by (simp add: save_def)

lemma save_uploads:
  assumes "run_plan (exists env this) (getUniqueFileName env img (getTargetDir env)) =
      (Inr unique, cs)"
  shows "save env this img =
    (case bucket_upload env (this_bucket this) (image_path img)
            (save_opts env this (normalizePathForGCS unique)) of
       Inl e \<Rightarrow> Inl e
     | Inr u \<Rightarrow> Inr (getBaseUrl this @ normalizePathForGCS unique),
     cs @ [BucketUpload (this_bucket this) (image_path img)
        (save_opts env this (normalizePathForGCS unique))])"
  using assms by (simp add: save_def Let_def split: sum.splits)

lemma save_InrD:
  assumes "save env this img = (Inr url, calls)"
  obtains unique cs where
    "run_plan (exists env this) (getUniqueFileName env img (getTargetDir env)) = (Inr unique, cs)"
    and "url = getBaseUrl this @ normalizePathForGCS unique"
    and "calls = cs @ [BucketUpload (this_bucket this) (image_path img)
        (save_opts env this (normalizePathForGCS unique))]"
proof -
  obtain r cs where rc:
    "run_plan (exists env this) (getUniqueFileName env img (getTargetDir env)) = (r, cs)"
    by (cases "run_plan (exists env this) (getUniqueFileName env img (getTargetDir env))")
  show ?thesis
  proof (cases r)
    case (Inl e)
    from save_rejected_name [OF rc [unfolded Inl]] assms show ?thesis by simp
  next
    case (Inr unique)
    from save_uploads [OF rc [unfolded Inr]] assms that [OF rc [unfolded Inr]]
    show ?thesis
      by (auto split: sum.splits)
  qed
qed

lemma save_upload_callD:
  assumes "BucketUpload bk src opts \<in> set (snd (save env this img))"
  obtains unique cs where
    "run_plan (exists env this) (getUniqueFileName env img (getTargetDir env)) = (Inr unique, cs)"
    and "opts = save_opts env this (normalizePathForGCS unique)"
    and "bk = this_bucket this" and "src = image_path img"
proof -
  obtain r cs where rc:
    "run_plan (exists env this) (getUniqueFileName env img (getTargetDir env)) = (r, cs)"
    by (cases "run_plan (exists env this) (getUniqueFileName env img (getTargetDir env))")
  have no: "BucketUpload bk src opts \<notin> set cs"
    using run_plan_no_upload [of bk src opts env this
        "getUniqueFileName env img (getTargetDir env)"]
    by (simp add: rc)
  show ?thesis
  proof (cases r)
    case (Inl e)
    from save_rejected_name [OF rc [unfolded Inl]] assms no show ?thesis by simp
  next
    case (Inr unique)
    from save_uploads [OF rc [unfolded Inr]] assms no that [OF rc [unfolded Inr]]
    show ?thesis
      by auto
  qed
qed

lemma save_exists_callD:
  assumes "FileExists bk p \<in> set (snd (save env this img))"
  shows "FileExists bk p \<in>
     set (snd (run_plan (exists env this) (getUniqueFileName env img (getTargetDir env))))"
proof -
  obtain r cs where rc:
    "run_plan (exists env this) (getUniqueFileName env img (getTargetDir env)) = (r, cs)"
    by (cases "run_plan (exists env this) (getUniqueFileName env img (getTargetDir env))")
  show ?thesis
  proof (cases r)
    case (Inl e)
    from save_rejected_name [OF rc [unfolded Inl]] assms show ?thesis by (simp add: rc)
  next
    case (Inr unique)
    from save_uploads [OF rc [unfolded Inr]] assms show ?thesis by (simp add: rc)
  qed
qed

text \<open>
  Claim C1. When \<open>save\<close> resolves, for an adapter constructed from \<open>config\<close>:
  \<open>getUniqueFileName\<close> has settled on a name; the string returned is the base URL of
  \<open>getBaseUrl\<close> followed by that name with every backslash turned into a slash; the
  calls on the client are those \<open>getUniqueFileName\<close> caused, none of them an upload,
  and then one upload, of the image's local file to that normalized name. The
  cache-control text of the upload is \<open>public, max-age=\<close> followed by the configured
  max-age: by the configured string itself; by the decimal numeral of a configured safe
  integer; by what the runtime prints for any other configured number; and by
  \<open>2678400\<close> when none is configured.
\<close>

theorem save_returns_url:
  assumes "GStore_constructor config = (Inr this, calls0)"
    and "save env this img = (Inr url, calls)"
  shows "\<exists>unique name_calls opts.
      run_plan (exists env this) (getUniqueFileName env img (getTargetDir env)) =
        (Inr unique, name_calls)
    \<and> url = getBaseUrl this @ normalizePathForGCS unique
    \<and> CHR 0x5C \<notin> set (normalizePathForGCS unique)
    \<and> calls = name_calls @ [BucketUpload (this_bucket this) (image_path img) opts]
    \<and> (\<forall>bk src other. BucketUpload bk src other \<notin> set name_calls)
    \<and> destination opts = normalizePathForGCS unique
    \<and> (\<forall>s. maxAge config = Some (MaxAgeString s) \<longrightarrow>
          cacheControl opts = ''public, max-age='' @ s)
    \<and> (\<forall>n. maxAge config = Some (MaxAgeNumber (Integer n)) \<and> is_safe_integer n \<longrightarrow>
          (\<exists>numeral. cacheControl opts = ''public, max-age='' @ numeral
             \<and> decimal_numeral n numeral))
    \<and> (\<forall>x. maxAge config = Some (MaxAgeNumber x)
             \<and> (\<forall>n. x = Integer n \<longrightarrow> \<not> is_safe_integer n) \<longrightarrow>
          cacheControl opts = ''public, max-age='' @ Number_toString env x)
    \<and> (maxAge config = None \<longrightarrow> cacheControl opts = ''public, max-age=2678400'')"
proof -
  from assms(1) have m: "this_maxAge this = nullish (maxAge config) (MaxAgeNumber (Integer 2678400))"
    by (elim constructor_InrD)
  from assms(2) obtain unique name_calls where
    u: "run_plan (exists env this) (getUniqueFileName env img (getTargetDir env)) =
        (Inr unique, name_calls)"
    and url: "url = getBaseUrl this @ normalizePathForGCS unique"
    and calls: "calls = name_calls @ [BucketUpload (this_bucket this) (image_path img)
        (save_opts env this (normalizePathForGCS unique))]"
    by (rule save_InrD)
  let ?opts = "save_opts env this (normalizePathForGCS unique)"
  have cc: "cacheControl ?opts =
      ''public, max-age='' @
      maxAge_toString env
        (case maxAge config of None \<Rightarrow> MaxAgeNumber (Integer 2678400) | Some m \<Rightarrow> m)"
    by (simp add: cacheControl_save_opts m nullish_def)
  have no: "\<forall>bk src other. BucketUpload bk src other \<notin> set name_calls"
    using run_plan_no_upload [of _ _ _ env this "getUniqueFileName env img (getTargetDir env)"]
    by (simp add: u)
  have str: "\<forall>s. maxAge config = Some (MaxAgeString s) \<longrightarrow>
      cacheControl ?opts = ''public, max-age='' @ s"
    by (simp add: cc maxAge_toString_def)
  have num: "\<forall>n. maxAge config = Some (MaxAgeNumber (Integer n)) \<and> is_safe_integer n \<longrightarrow>
      (\<exists>numeral. cacheControl ?opts = ''public, max-age='' @ numeral
         \<and> decimal_numeral n numeral)"
    by (auto simp: cc maxAge_toString_def intro: number_toString_numeral)
  have other: "\<forall>x. maxAge config = Some (MaxAgeNumber x)
         \<and> (\<forall>n. x = Integer n \<longrightarrow> \<not> is_safe_integer n) \<longrightarrow>
      cacheControl ?opts = ''public, max-age='' @ Number_toString env x"
    by (auto simp: cc maxAge_toString_def number_toString_other)
  have dflt: "maxAge config = None \<longrightarrow> cacheControl ?opts = ''public, max-age=2678400''"
    by (simp add: cc maxAge_toString_default)
  show ?thesis
  proof (intro exI conjI)
    show "run_plan (exists env this) (getUniqueFileName env img (getTargetDir env)) =
        (Inr unique, name_calls)" by (rule u)
    show "url = getBaseUrl this @ normalizePathForGCS unique" by (rule url)
    show "CHR 0x5C \<notin> set (normalizePathForGCS unique)"
      by (rule normalizePathForGCS_no_backslash)
    show "calls = name_calls @ [BucketUpload (this_bucket this) (image_path img) ?opts]"
      by (rule calls)
    show "\<forall>bk src other. BucketUpload bk src other \<notin> set name_calls" by (rule no)
    show "destination ?opts = normalizePathForGCS unique" by (rule destination_save_opts)
    show "\<forall>s. maxAge config = Some (MaxAgeString s) \<longrightarrow>
        cacheControl ?opts = ''public, max-age='' @ s" by (rule str)
    show "\<forall>n. maxAge config = Some (MaxAgeNumber (Integer n)) \<and> is_safe_integer n \<longrightarrow>
        (\<exists>numeral. cacheControl ?opts = ''public, max-age='' @ numeral
           \<and> decimal_numeral n numeral)" by (rule num)
    show "\<forall>x. maxAge config = Some (MaxAgeNumber x)
           \<and> (\<forall>n. x = Integer n \<longrightarrow> \<not> is_safe_integer n) \<longrightarrow>
        cacheControl ?opts = ''public, max-age='' @ Number_toString env x" by (rule other)
    show "maxAge config = None \<longrightarrow> cacheControl ?opts = ''public, max-age=2678400''"
      by (rule dflt)
  qed
qed

lemma constructor_minimal:
  "\<exists>this. GStore_constructor config_minimal =
     (Inr this, [NewStorage (bucket_storage (this_bucket this)), StorageBucket ''test-bucket''])
   \<and> getBaseUrl this = ''https://test-bucket.storage.googleapis.com/''"
  by (simp add: GStore_constructor_def config_minimal_def Let_def getBaseUrl_def
      logical_or_def nullish_def)

lemma constructor_full:
  "\<exists>this. GStore_constructor config_full =
     (Inr this, [NewStorage (bucket_storage (this_bucket this)), StorageBucket ''test-bucket''])
   \<and> getBaseUrl this = ''http://cdn.example.com/''"
  by (simp add: GStore_constructor_def config_full_def Let_def getBaseUrl_def
      logical_or_def nullish_def truthy_def)

lemma constructor_maxAge_string:
  "\<exists>this. GStore_constructor config_maxAge_string =
     (Inr this, [NewStorage (bucket_storage (this_bucket this)), StorageBucket ''test-bucket''])
   \<and> getBaseUrl this = ''https://test-bucket.storage.googleapis.com/''"
  by (simp add: GStore_constructor_def config_maxAge_string_def config_minimal_def Let_def
      getBaseUrl_def logical_or_def nullish_def)

lemma constructor_uniform:
  "\<exists>this. GStore_constructor config_uniform =
     (Inr this, [NewStorage (bucket_storage (this_bucket this)), StorageBucket ''test-bucket''])"
  by (simp add: GStore_constructor_def config_uniform_def config_minimal_def Let_def)

lemma image_path_test: "image_path image_test = ''/tmp/test.jpg''"
  by (simp add: image_test_def)

lemma plan_test:
  "run_plan (exists env_test this) (getUniqueFileName env_test image_test (getTargetDir env_test)) =
     (Inr ''2024/01/test.jpg'', [])"
  by (simp add: env_test_def image_test_def)

lemma plan_windows:
  "run_plan (exists env_windows this)
     (getUniqueFileName env_windows image_test (getTargetDir env_windows)) =
     (Inr (''2024'' @ [CHR 0x5C] @ ''01'' @ [CHR 0x5C] @ ''test.jpg''), [])"
  by (simp add: env_windows_def env_test_def image_test_def)

lemma join_fresh: "posix_join ''2024/01'' ''test.jpg'' = ''2024/01/test.jpg''"
  by (simp add: posix_join_def)

lemma plan_fresh:
  "run_plan (exists env_fresh this)
     (getUniqueFileName env_fresh image_test (getTargetDir env_fresh)) =
     (Inr ''2024/01/test.jpg'', [FileExists (this_bucket this) ''2024/01/test.jpg''])"
proof -
  have e: "exists env_fresh this ''test.jpg'' (Some ''2024/01'') =
      (Inr False, [FileExists (this_bucket this) ''2024/01/test.jpg''])"
    by (simp add: exists_eq built_path_def env_fresh_def env_test_def join_fresh
        normalizePathForGCS_def)
  have n: "image_name image_test = ''test.jpg''"
    by (simp add: image_test_def)
  have g: "getUniqueFileName env_fresh image_test (getTargetDir env_fresh) =
      AskExists ''test.jpg'' (Some ''2024/01'')
        (\<lambda>answer. case answer of
             Inl e \<Rightarrow> Settled (Inl e)
           | Inr found \<Rightarrow>
               if found then Settled (Inl (Error ''name taken''))
               else Settled (Inr (posix_join ''2024/01'' (image_name image_test))))"
    by (simp add: env_fresh_def env_test_def n)
  show ?thesis
    unfolding g by (simp add: e n join_fresh)
qed

lemma save_test:
  "save env_test this image_test =
     (Inr (getBaseUrl this @ ''2024/01/test.jpg''),
      [BucketUpload (this_bucket this) ''/tmp/test.jpg''
         (save_opts env_test this ''2024/01/test.jpg'')])"
proof -
  have "bucket_upload env_test bk src opts = Inr ()" for bk src opts
    by (simp add: env_test_def)
  then show ?thesis
    by (simp add: save_uploads [OF plan_test] image_path_test normalizePathForGCS_def)
qed

lemma save_windows:
  "save env_windows this image_test =
     (Inr (getBaseUrl this @ ''2024/01/test.jpg''),
      [BucketUpload (this_bucket this) ''/tmp/test.jpg''
         (save_opts env_windows this ''2024/01/test.jpg'')])"
proof -
  have "bucket_upload env_windows bk src opts = Inr ()" for bk src opts
    by (simp add: env_windows_def env_test_def)
  then show ?thesis
    by (simp add: save_uploads [OF plan_windows] image_path_test normalizePathForGCS_def)
qed

lemma save_fresh:
  "save env_fresh this image_test =
     (Inr (getBaseUrl this @ ''2024/01/test.jpg''),
      [FileExists (this_bucket this) ''2024/01/test.jpg'',
       BucketUpload (this_bucket this) ''/tmp/test.jpg''
         (save_opts env_fresh this ''2024/01/test.jpg'')])"
proof -
  have "bucket_upload env_fresh bk src opts = Inr ()" for bk src opts
    by (simp add: env_fresh_def env_test_def)
  then show ?thesis
    by (simp add: save_uploads [OF plan_fresh] image_path_test normalizePathForGCS_def)
qed

theorem save_returns_url_witness:
  "(\<exists>this calls0 opts.
      GStore_constructor config_minimal = (Inr this, calls0)
    \<and> save env_fresh this image_test =
        (Inr ''https://test-bucket.storage.googleapis.com/2024/01/test.jpg'',
         [FileExists (this_bucket this) ''2024/01/test.jpg'',
          BucketUpload (this_bucket this) ''/tmp/test.jpg'' opts])
    \<and> destination opts = ''2024/01/test.jpg''
    \<and> cacheControl opts = ''public, max-age=2678400'')
   \<and> (\<exists>this calls0 opts.
      GStore_constructor config_maxAge_string = (Inr this, calls0)
    \<and> save env_windows this image_test =
        (Inr ''https://test-bucket.storage.googleapis.com/2024/01/test.jpg'',
         [BucketUpload (this_bucket this) ''/tmp/test.jpg'' opts])
    \<and> destination opts = ''2024/01/test.jpg''
    \<and> cacheControl opts = ''public, max-age=86400'')
   \<and> (\<exists>this calls0 opts numeral.
      GStore_constructor config_full = (Inr this, calls0)
    \<and> save env_test this image_test =
        (Inr ''http://cdn.example.com/2024/01/test.jpg'',
         [BucketUpload (this_bucket this) ''/tmp/test.jpg'' opts])
    \<and> cacheControl opts = ''public, max-age='' @ numeral
    \<and> decimal_numeral 3600 numeral
    \<and> numeral = ''3600'')"
proof (intro conjI)
  from constructor_minimal obtain this calls0 where
    c: "GStore_constructor config_minimal = (Inr this, calls0)"
    and b: "getBaseUrl this = ''https://test-bucket.storage.googleapis.com/''"
    by blast
  let ?opts = "save_opts env_fresh this ''2024/01/test.jpg''"
  note s = save_fresh [of this]
  from save_returns_url [OF c s] obtain opts where
    "[FileExists (this_bucket this) ''2024/01/test.jpg'',
      BucketUpload (this_bucket this) ''/tmp/test.jpg'' ?opts] =
     [FileExists (this_bucket this) ''2024/01/test.jpg''] @
     [BucketUpload (this_bucket this) (image_path image_test) opts]"
    and "cacheControl opts = ''public, max-age=2678400''"
    and "destination opts = ''2024/01/test.jpg''"
    by (auto simp: config_minimal_def plan_fresh normalizePathForGCS_def)
  then have "cacheControl ?opts = ''public, max-age=2678400''"
    and "destination ?opts = ''2024/01/test.jpg''"
    by simp_all
  with c s b show "\<exists>this calls0 opts.
      GStore_constructor config_minimal = (Inr this, calls0)
    \<and> save env_fresh this image_test =
        (Inr ''https://test-bucket.storage.googleapis.com/2024/01/test.jpg'',
         [FileExists (this_bucket this) ''2024/01/test.jpg'',
          BucketUpload (this_bucket this) ''/tmp/test.jpg'' opts])
    \<and> destination opts = ''2024/01/test.jpg''
    \<and> cacheControl opts = ''public, max-age=2678400''"
    by (intro exI [of _ this] exI [of _ calls0] exI [of _ ?opts]) simp
next
  from constructor_maxAge_string obtain this calls0 where
    c: "GStore_constructor config_maxAge_string = (Inr this, calls0)"
    and b: "getBaseUrl this = ''https://test-bucket.storage.googleapis.com/''"
    by blast
  let ?opts = "save_opts env_windows this ''2024/01/test.jpg''"
  note s = save_windows [of this]
  from save_returns_url [OF c s] obtain opts where
    "[BucketUpload (this_bucket this) ''/tmp/test.jpg'' ?opts] =
     [] @ [BucketUpload (this_bucket this) (image_path image_test) opts]"
    and "cacheControl opts = ''public, max-age=86400''"
    and "destination opts = ''2024/01/test.jpg''"
    by (auto simp: config_maxAge_string_def config_minimal_def plan_windows
        normalizePathForGCS_def)
  then have "cacheControl ?opts = ''public, max-age=86400''"
    and "destination ?opts = ''2024/01/test.jpg''"
    by simp_all
  with c s b show "\<exists>this calls0 opts.
      GStore_constructor config_maxAge_string = (Inr this, calls0)
    \<and> save env_windows this image_test =
        (Inr ''https://test-bucket.storage.googleapis.com/2024/01/test.jpg'',
         [BucketUpload (this_bucket this) ''/tmp/test.jpg'' opts])
    \<and> destination opts = ''2024/01/test.jpg''
    \<and> cacheControl opts = ''public, max-age=86400''"
    by (intro exI [of _ this] exI [of _ calls0] exI [of _ ?opts]) simp
next
  from constructor_full obtain this calls0 where
    c: "GStore_constructor config_full = (Inr this, calls0)"
    and b: "getBaseUrl this = ''http://cdn.example.com/''"
    by blast
  let ?opts = "save_opts env_test this ''2024/01/test.jpg''"
  note s = save_test [of this]
  have safe: "is_safe_integer 3600"
    by (simp add: is_safe_integer_def)
  from save_returns_url [OF c s] safe obtain opts numeral where
    o: "[BucketUpload (this_bucket this) ''/tmp/test.jpg'' ?opts] =
     [] @ [BucketUpload (this_bucket this) (image_path image_test) opts]"
    and n: "cacheControl opts = ''public, max-age='' @ numeral"
    and d: "decimal_numeral 3600 numeral"
    by (auto simp: config_full_def plan_test)
  from c have "this_maxAge this = MaxAgeNumber (Integer 3600)"
    by (elim constructor_InrD) (simp add: config_full_def nullish_def)
  then have "cacheControl ?opts = ''public, max-age=3600''"
    by (simp add: cacheControl_save_opts maxAge_toString_def number_toString_def safe
        digits.simps digit_char_def)
  with o n have e: "numeral = ''3600''" by simp
  from o n d e have "cacheControl ?opts = ''public, max-age='' @ numeral"
    by simp
  with c s b d e show "\<exists>this calls0 opts numeral.
      GStore_constructor config_full = (Inr this, calls0)
    \<and> save env_test this image_test =
        (Inr ''http://cdn.example.com/2024/01/test.jpg'',
         [BucketUpload (this_bucket this) ''/tmp/test.jpg'' opts])
    \<and> cacheControl opts = ''public, max-age='' @ numeral
    \<and> decimal_numeral 3600 numeral
    \<and> numeral = ''3600''"
    by (intro exI [of _ this] exI [of _ calls0] exI [of _ ?opts] exI [of _ numeral]) simp
qed

text \<open>
  Claim C5. For an adapter constructed from \<open>config\<close>, the options of every upload that
  \<open>save\<close> requests have \<open>public\<close> set to true if and only if
  \<open>uniformBucketLevelAccess\<close> is false or omitted; when it is true the options have no
  \<open>public\<close> field at all.
\<close>

theorem save_public_flag:
  assumes "GStore_constructor config = (Inr this, calls0)"
    and "BucketUpload bk src opts \<in> set (snd (save env this img))"
  shows "(public opts = Some True \<longleftrightarrow>
            (uniformBucketLevelAccess config = None \<or>
             uniformBucketLevelAccess config = Some False))
       \<and> (uniformBucketLevelAccess config = Some True \<longrightarrow> public opts = None)"
proof -
  from assms(1) have u: "this_uniformBucketLevelAccess this =
      nullish (uniformBucketLevelAccess config) False"
    by (elim constructor_InrD)
  from assms(2) obtain unique where "opts = save_opts env this (normalizePathForGCS unique)"
    by (elim save_upload_callD)
  then have "public opts = (if this_uniformBucketLevelAccess this then None else Some True)"
    by (simp add: public_save_opts)
  with u show ?thesis
    by (cases "uniformBucketLevelAccess config") (auto simp: nullish_def)
qed

theorem save_public_flag_witness:
  "(\<exists>this calls0 opts. GStore_constructor config_minimal = (Inr this, calls0)
       \<and> snd (save env_test this image_test) =
           [BucketUpload (this_bucket this) ''/tmp/test.jpg'' opts]
       \<and> public opts = Some True)
   \<and> (\<exists>this calls0 opts. GStore_constructor config_uniform = (Inr this, calls0)
       \<and> snd (save env_test this image_test) =
           [BucketUpload (this_bucket this) ''/tmp/test.jpg'' opts]
       \<and> public opts = None)"
proof -
  have s: "snd (save env_test this image_test) =
      [BucketUpload (this_bucket this) ''/tmp/test.jpg''
         (save_opts env_test this ''2024/01/test.jpg'')]"
    for this
    by (simp add: save_test)
  from constructor_minimal obtain t1 c1 where
    c1: "GStore_constructor config_minimal = (Inr t1, c1)" by blast
  from constructor_uniform obtain t2 c2 where
    c2: "GStore_constructor config_uniform = (Inr t2, c2)" by blast
  have m1: "BucketUpload (this_bucket t1) ''/tmp/test.jpg''
        (save_opts env_test t1 ''2024/01/test.jpg'')
      \<in> set (snd (save env_test t1 image_test))"
    by (simp add: s)
  have m2: "BucketUpload (this_bucket t2) ''/tmp/test.jpg''
        (save_opts env_test t2 ''2024/01/test.jpg'')
      \<in> set (snd (save env_test t2 image_test))"
    by (simp add: s)
  from save_public_flag [OF c1 m1]
  have "public (save_opts env_test t1 ''2024/01/test.jpg'') = Some True"
    by (simp add: config_minimal_def)
  moreover from save_public_flag [OF c2 m2]
  have "public (save_opts env_test t2 ''2024/01/test.jpg'') = None"
    by (simp add: config_uniform_def config_minimal_def)
  ultimately show ?thesis
    using c1 c2 s by blast
qed

section \<open>The paths sent to the client\<close>

text \<open>
  Claim C6. \<open>normalizePathForGCS\<close> keeps the length of a path, turns every backslash
  into a slash, leaves every other character as it is, and so returns a path without
  backslashes. The destination of every upload \<open>save\<close> requests is the unique file
  name so normalized, every existence query made in the course of \<open>save\<close> is of a path
  without backslashes, and the one path \<open>exists\<close> and \<open>delete\<close> hand to the client is
  the path they built, so normalized.
\<close>

theorem paths_sent_are_normalized:
  "(\<forall>p. length (normalizePathForGCS p) = length p
        \<and> CHR 0x5C \<notin> set (normalizePathForGCS p)
        \<and> (\<forall>i<length p.
              normalizePathForGCS p ! i = (if p ! i = CHR 0x5C then CHR ''/'' else p ! i)))
   \<and> (\<forall>bk src opts. BucketUpload bk src opts \<in> set (snd (save env this img)) \<longrightarrow>
          (\<exists>unique name_calls.
             run_plan (exists env this) (getUniqueFileName env img (getTargetDir env)) =
               (Inr unique, name_calls)
             \<and> destination opts = normalizePathForGCS unique))
   \<and> (\<forall>bk p. FileExists bk p \<in> set (snd (save env this img)) \<longrightarrow> CHR 0x5C \<notin> set p)
   \<and> snd (exists env this filename targetDir) =
       [FileExists (this_bucket this) (normalizePathForGCS (built_path env filename targetDir))]
   \<and> snd (delete env this filename targetDir) =
       [FileDelete (this_bucket this) (normalizePathForGCS (built_path env filename targetDir))]"
proof (intro conjI allI impI)
  fix bk src opts
  assume "BucketUpload bk src opts \<in> set (snd (save env this img))"
  then obtain unique name_calls where
    "run_plan (exists env this) (getUniqueFileName env img (getTargetDir env)) =
       (Inr unique, name_calls)"
    and "opts = save_opts env this (normalizePathForGCS unique)"
    by (elim save_upload_callD)
  then show "\<exists>unique name_calls.
      run_plan (exists env this) (getUniqueFileName env img (getTargetDir env)) =
        (Inr unique, name_calls)
      \<and> destination opts = normalizePathForGCS unique"
    by (simp add: destination_save_opts)
next
  fix bk p
  assume "FileExists bk p \<in> set (snd (save env this img))"
  then have "FileExists bk p \<in>
      set (snd (run_plan (exists env this) (getUniqueFileName env img (getTargetDir env))))"
    by (rule save_exists_callD)
  then show "CHR 0x5C \<notin> set p"
    by (rule run_plan_no_backslash)
qed (simp_all add: normalizePathForGCS_length normalizePathForGCS_no_backslash
    normalizePathForGCS_nth exists_eq delete_eq)

theorem paths_sent_are_normalized_witness:
  "\<exists>this calls0 opts.
      GStore_constructor config_minimal = (Inr this, calls0)
    \<and> normalizePathForGCS (''2024'' @ [CHR 0x5C] @ ''01'' @ [CHR 0x5C] @ ''photo.jpg'') ! 4 =
        CHR ''/''
    \<and> snd (save env_windows this image_test) =
        [BucketUpload (this_bucket this) ''/tmp/test.jpg'' opts]
    \<and> destination opts = ''2024/01/test.jpg''
    \<and> snd (exists env_windows this ''photo.jpg'' (Some ''2024'')) =
        [FileExists (this_bucket this) ''2024/photo.jpg'']
    \<and> snd (delete env_windows this ''photo.jpg'' (Some ''2024'')) =
        [FileDelete (this_bucket this) ''2024/photo.jpg'']"
proof -
  from constructor_minimal obtain this calls0 where
    c: "GStore_constructor config_minimal = (Inr this, calls0)" by blast
  let ?opts = "save_opts env_windows this ''2024/01/test.jpg''"
  note inst = paths_sent_are_normalized
    [of env_windows this image_test "''photo.jpg''" "Some ''2024''"]
  have b: "normalizePathForGCS (built_path env_windows ''photo.jpg'' (Some ''2024'')) =
      ''2024/photo.jpg''"
    by (simp add: built_path_def env_windows_def env_test_def normalizePathForGCS_def)
  have s: "snd (save env_windows this image_test) =
      [BucketUpload (this_bucket this) ''/tmp/test.jpg'' ?opts]"
    by (simp add: save_windows)
  then have "BucketUpload (this_bucket this) ''/tmp/test.jpg'' ?opts
      \<in> set (snd (save env_windows this image_test))"
    by simp
  with inst have d: "destination ?opts = ''2024/01/test.jpg''"
    by (auto simp: plan_windows normalizePathForGCS_def)
  from inst b have e: "snd (exists env_windows this ''photo.jpg'' (Some ''2024'')) =
      [FileExists (this_bucket this) ''2024/photo.jpg'']"
    and x: "snd (delete env_windows this ''photo.jpg'' (Some ''2024'')) =
      [FileDelete (this_bucket this) ''2024/photo.jpg'']"
    by simp_all
  from inst have "\<forall>i<length (''2024'' @ [CHR 0x5C] @ ''01'' @ [CHR 0x5C] @ ''photo.jpg'').
      normalizePathForGCS (''2024'' @ [CHR 0x5C] @ ''01'' @ [CHR 0x5C] @ ''photo.jpg'') ! i =
        (if (''2024'' @ [CHR 0x5C] @ ''01'' @ [CHR 0x5C] @ ''photo.jpg'') ! i = CHR 0x5C
         then CHR ''/''
         else (''2024'' @ [CHR 0x5C] @ ''01'' @ [CHR 0x5C] @ ''photo.jpg'') ! i)"
    by blast
  then have n: "normalizePathForGCS
      (''2024'' @ [CHR 0x5C] @ ''01'' @ [CHR 0x5C] @ ''photo.jpg'') ! 4 = CHR ''/''"
    by simp
  from c n s d e x show ?thesis by blast
qed

section \<open>exists\<close>

lemma join_duplicate_slash: "posix_join [] ''a//b.jpg'' = ''a/b.jpg''"
  by (simp add: posix_join_def)

text \<open>
  Claim C8, as stated, fails when the target directory is given as the empty string:
  \<open>exists\<close> then queries the file name as it is, \<open>a//b.jpg\<close>, where \<open>path.join\<close> of
  the directory and the file name is \<open>a/b.jpg\<close>.
\<close>

theorem exists_joins_counterexample:
  "(case fst (GStore_constructor config_minimal) of
      Inl err \<Rightarrow> False
    | Inr this \<Rightarrow>
        snd (exists env_test this ''a//b.jpg'' (Some [])) =
          [FileExists (this_bucket this) ''a//b.jpg'']
      \<and> normalizePathForGCS (path_join env_test [] ''a//b.jpg'') = ''a/b.jpg''
      \<and> snd (exists env_test this ''a//b.jpg'' (Some [])) \<noteq>
          [FileExists (this_bucket this)
             (normalizePathForGCS (path_join env_test [] ''a//b.jpg''))])"
proof -
  have j: "path_join env_test [] ''a//b.jpg'' = ''a/b.jpg''"
    by (simp add: env_test_def join_duplicate_slash)
  show ?thesis
    by (simp add: GStore_constructor_def config_minimal_def Let_def exists_eq built_path_def
        j normalizePathForGCS_def)
qed

text \<open>
  Claim C8, amended. \<open>exists\<close> makes one call on the client, the existence query of one
  path. With a target directory that is given and not empty, that path is \<open>path.join\<close>
  of the directory and the file name; without a target directory, or with the empty
  string for one, it is the file name alone; in all cases with the separators
  normalized, so that it holds no backslash. When the query resolves to a boolean,
  \<open>exists\<close> resolves to that boolean (its result is of type \<open>bool\<close>: there is no third
  value); when the query rejects, \<open>exists\<close> rejects with the same error.
\<close>

theorem exists_path_and_result:
  "((targetDir = None \<or> targetDir = Some []) \<longrightarrow>
      snd (exists env this filename targetDir) =
        [FileExists (this_bucket this) (normalizePathForGCS filename)])
   \<and> (\<forall>dir. targetDir = Some dir \<and> dir \<noteq> [] \<longrightarrow>
      snd (exists env this filename targetDir) =
        [FileExists (this_bucket this) (normalizePathForGCS (path_join env dir filename))])
   \<and> (\<forall>p. snd (exists env this filename targetDir) = [FileExists (this_bucket this) p] \<longrightarrow>
        CHR 0x5C \<notin> set p
      \<and> (\<forall>found. file_exists env (this_bucket this) p = Inr found \<longrightarrow>
            fst (exists env this filename targetDir) = Inr found)
      \<and> (\<forall>err. file_exists env (this_bucket this) p = Inl err \<longrightarrow>
            fst (exists env this filename targetDir) = Inl err))"
proof (intro conjI allI impI)
  assume "targetDir = None \<or> targetDir = Some []"
  then have "built_path env filename targetDir = filename"
    by (auto simp: built_path_None built_path_empty)
  then show "snd (exists env this filename targetDir) =
      [FileExists (this_bucket this) (normalizePathForGCS filename)]"
    by (simp add: exists_eq)
next
  fix dir
  assume a: "targetDir = Some dir \<and> dir \<noteq> []"
  then have "built_path env filename (Some dir) = path_join env dir filename"
    by (simp add: built_path_Some)
  with a show "snd (exists env this filename targetDir) =
      [FileExists (this_bucket this) (normalizePathForGCS (path_join env dir filename))]"
    by (simp add: exists_eq)
next
  fix p
  assume "snd (exists env this filename targetDir) = [FileExists (this_bucket this) p]"
  then have p: "p = normalizePathForGCS (built_path env filename targetDir)"
    by (simp add: exists_eq)
  show "CHR 0x5C \<notin> set p"
    unfolding p by (rule normalizePathForGCS_no_backslash)
  {
    fix found
    assume "file_exists env (this_bucket this) p = Inr found"
    then show "fst (exists env this filename targetDir) = Inr found"
      by (simp add: exists_eq p)
  }
  {
    fix err
    assume "file_exists env (this_bucket this) p = Inl err"
    then show "fst (exists env this filename targetDir) = Inl err"
      by (simp add: exists_eq p)
  }
qed

theorem exists_path_and_result_witness:
  "\<exists>this calls0.
      GStore_constructor config_minimal = (Inr this, calls0)
    \<and> exists env_test this ''test.jpg'' None =
        (Inr True, [FileExists (this_bucket this) ''test.jpg''])
    \<and> exists env_windows this ''test.jpg'' (Some ''2024'') =
        (Inr True, [FileExists (this_bucket this) ''2024/test.jpg''])
    \<and> exists env_test this ''a//b.jpg'' (Some []) =
        (Inr True, [FileExists (this_bucket this) ''a//b.jpg''])
    \<and> exists env_failing this ''test.jpg'' None =
        (Inl (Error ''Check failed''), [FileExists (this_bucket this) ''test.jpg''])"
proof -
  from constructor_minimal obtain this calls0 where
    c: "GStore_constructor config_minimal = (Inr this, calls0)" by blast
  have n1: "normalizePathForGCS ''test.jpg'' = ''test.jpg''"
    by (simp add: normalizePathForGCS_def)
  have n2: "normalizePathForGCS (path_join env_windows ''2024'' ''test.jpg'') = ''2024/test.jpg''"
    by (simp add: normalizePathForGCS_def env_windows_def env_test_def)
  have n3: "normalizePathForGCS ''a//b.jpg'' = ''a//b.jpg''"
    by (simp add: normalizePathForGCS_def)
  have r1: "file_exists env_test (this_bucket this) ''test.jpg'' = Inr True"
    by (simp add: env_test_def)
  have r1': "file_exists env_test (this_bucket this) ''a//b.jpg'' = Inr True"
    by (simp add: env_test_def)
  have r2: "file_exists env_windows (this_bucket this) ''2024/test.jpg'' = Inr True"
    by (simp add: env_windows_def env_test_def)
  have r3: "file_exists env_failing (this_bucket this) ''test.jpg'' = Inl (Error ''Check failed'')"
    by (simp add: env_failing_def env_test_def)
  from exists_path_and_result [of None env_test this "''test.jpg''"] n1 r1
  have e1: "exists env_test this ''test.jpg'' None =
      (Inr True, [FileExists (this_bucket this) ''test.jpg''])"
    by (simp add: prod_eq_iff)
  from exists_path_and_result [of "Some ''2024''" env_windows this "''test.jpg''"] n2 r2
  have e2: "exists env_windows this ''test.jpg'' (Some ''2024'') =
      (Inr True, [FileExists (this_bucket this) ''2024/test.jpg''])"
    by (simp add: prod_eq_iff)
  from exists_path_and_result [of "Some []" env_test this "''a//b.jpg''"] n3 r1'
  have e3: "exists env_test this ''a//b.jpg'' (Some []) =
      (Inr True, [FileExists (this_bucket this) ''a//b.jpg''])"
    by (simp add: prod_eq_iff)
  from exists_path_and_result [of None env_failing this "''test.jpg''"] n1 r3
  have e4: "exists env_failing this ''test.jpg'' None =
      (Inl (Error ''Check failed''), [FileExists (this_bucket this) ''test.jpg''])"
    by (simp add: prod_eq_iff)
  from c e1 e2 e3 e4 show ?thesis by blast
qed

section \<open>delete\<close>

text \<open>
  Claim C9. \<open>delete\<close> makes one call on the client, the deletion of one path. When that
  call resolves, \<open>delete\<close> resolves to true; when it rejects, \<open>delete\<close> rejects with
  the same error; and \<open>delete\<close> never resolves to false.
\<close>

theorem delete_true_or_rejects:
  "(\<forall>p. snd (delete env this filename targetDir) = [FileDelete (this_bucket this) p] \<longrightarrow>
        (\<forall>u. file_delete env (this_bucket this) p = Inr u \<longrightarrow>
            fst (delete env this filename targetDir) = Inr True)
      \<and> (\<forall>err. file_delete env (this_bucket this) p = Inl err \<longrightarrow>
            fst (delete env this filename targetDir) = Inl err))
   \<and> (\<exists>p. snd (delete env this filename targetDir) = [FileDelete (this_bucket this) p])
   \<and> fst (delete env this filename targetDir) \<noteq> Inr False"
proof -
  let ?p = "normalizePathForGCS (built_path env filename targetDir)"
  have calls: "snd (delete env this filename targetDir) = [FileDelete (this_bucket this) ?p]"
    by (simp add: delete_eq)
  have ok: "fst (delete env this filename targetDir) = Inr True"
    if "file_delete env (this_bucket this) ?p = Inr u" for u
    using that by (simp add: delete_eq)
  have failed: "fst (delete env this filename targetDir) = Inl err"
    if "file_delete env (this_bucket this) ?p = Inl err" for err
    using that by (simp add: delete_eq)
  have never: "fst (delete env this filename targetDir) \<noteq> Inr False"
    by (cases "file_delete env (this_bucket this) ?p") (simp_all add: ok failed)
  from calls ok failed never show ?thesis
    by simp
qed

theorem delete_true_or_rejects_witness:
  "\<exists>this calls0.
      GStore_constructor config_minimal = (Inr this, calls0)
    \<and> delete env_test this ''test.jpg'' None =
        (Inr True, [FileDelete (this_bucket this) ''test.jpg''])
    \<and> delete env_test this ''test.jpg'' (Some ''2024/01'') =
        (Inr True, [FileDelete (this_bucket this) ''2024/01/test.jpg''])
    \<and> delete env_failing this ''test.jpg'' None =
        (Inl (Error ''Delete failed''), [FileDelete (this_bucket this) ''test.jpg''])"
proof -
  from constructor_minimal obtain this calls0 where
    c: "GStore_constructor config_minimal = (Inr this, calls0)" by blast
  have s1: "snd (delete env_test this ''test.jpg'' None) =
      [FileDelete (this_bucket this) ''test.jpg'']"
    by (simp add: delete_eq built_path_def normalizePathForGCS_def)
  have s2: "snd (delete env_test this ''test.jpg'' (Some ''2024/01'')) =
      [FileDelete (this_bucket this) ''2024/01/test.jpg'']"
    by (simp add: delete_eq built_path_def env_test_def join_fresh normalizePathForGCS_def)
  have s3: "snd (delete env_failing this ''test.jpg'' None) =
      [FileDelete (this_bucket this) ''test.jpg'']"
    by (simp add: delete_eq built_path_def normalizePathForGCS_def)
  have r1: "file_delete env_test (this_bucket this) p = Inr ()" for p
    by (simp add: env_test_def)
  have r3: "file_delete env_failing (this_bucket this) ''test.jpg'' = Inl (Error ''Delete failed'')"
    by (simp add: env_failing_def env_test_def)
  from delete_true_or_rejects [of env_test this "''test.jpg''" None] s1 r1
  have e1: "delete env_test this ''test.jpg'' None =
      (Inr True, [FileDelete (this_bucket this) ''test.jpg''])"
    by (simp add: prod_eq_iff)
  from delete_true_or_rejects [of env_test this "''test.jpg''" "Some ''2024/01''"] s2 r1
  have e2: "delete env_test this ''test.jpg'' (Some ''2024/01'') =
      (Inr True, [FileDelete (this_bucket this) ''2024/01/test.jpg''])"
    by (simp add: prod_eq_iff)
  from delete_true_or_rejects [of env_failing this "''test.jpg''" None] s3 r3
  have e3: "delete env_failing this ''test.jpg'' None =
      (Inl (Error ''Delete failed''), [FileDelete (this_bucket this) ''test.jpg''])"
    by (simp add: prod_eq_iff)
  from c e1 e2 e3 show ?thesis by blast
qed

text \<open>
  Claim C10. With the empty string as target directory, \<open>exists\<close> and \<open>delete\<close> do
  what they do without a target directory: they hand the client the normalized file
  name, and \<open>path.join\<close> has no part in the result, whatever it would return.
\<close>

theorem empty_targetDir_as_absent:
  "exists env this filename (Some []) = exists env this filename None
   \<and> delete env this filename (Some []) = delete env this filename None
   \<and> snd (exists env this filename (Some [])) =
       [FileExists (this_bucket this) (normalizePathForGCS filename)]
   \<and> snd (delete env this filename (Some [])) =
       [FileDelete (this_bucket this) (normalizePathForGCS filename)]
   \<and> exists (env\<lparr> path_join := join \<rparr>) this filename (Some []) =
       exists env this filename (Some [])
   \<and> delete (env\<lparr> path_join := join \<rparr>) this filename (Some []) =
       delete env this filename (Some [])"
proof -
  have "exists e this filename (Some []) =
      (file_exists e (this_bucket this) (normalizePathForGCS filename),
       [FileExists (this_bucket this) (normalizePathForGCS filename)])" for e
    by (simp add: exists_eq built_path_empty)
  moreover have "delete e this filename (Some []) =
      (case file_delete e (this_bucket this) (normalizePathForGCS filename) of
         Inl err \<Rightarrow> Inl err
       | Inr u \<Rightarrow> Inr True,
       [FileDelete (this_bucket this) (normalizePathForGCS filename)])" for e
    by (simp add: delete_eq built_path_empty)
  ultimately show ?thesis
    by (simp add: exists_eq delete_eq built_path_None)
qed

section \<open>read\<close>

text \<open>Data events leave the promise alone and append to \<open>contents\<close>.\<close>

lemma foldl_data:
  "promise (foldl on_event s (map StreamData chunks)) = promise s
   \<and> contents (foldl on_event s (map StreamData chunks)) =
       (if chunks = [] then contents s
        else Some ((case contents s of None \<Rightarrow> [] | Some c \<Rightarrow> c) @ concat chunks))"
proof (induction chunks arbitrary: s)
  case Nil
  show ?case by simp
next
  case (Cons d ds)
  show ?case
    by (cases "contents s") (simp_all add: Cons.IH)
qed

text \<open>A settled promise stays as it is, whatever the stream emits later.\<close>

lemma settled_stays:
  "promise s = Some r \<Longrightarrow> promise (foldl on_event s evs) = Some r"
proof (induction evs arbitrary: s)
  case Nil
  then show ?case by simp
next
  case (Cons ev evs)
  from Cons.prems have "promise (on_event s ev) = Some r"
    by (cases ev) (simp_all add: settle_def split: option.splits)
  then show ?case by (simp add: Cons.IH)
qed

lemma read_events_end:
  "read_events (map StreamData chunks @ StreamEnd # rest) = Some (Inr (concat chunks))"
proof -
  let ?s = "foldl on_event \<lparr> contents = None, promise = None \<rparr> (map StreamData chunks)"
  have p: "promise ?s = None" and c: "contents ?s = (if chunks = [] then None else Some (concat chunks))"
    by (simp_all add: foldl_data)
  have "promise (on_event ?s StreamEnd) = Some (Inr (concat chunks))"
    by (simp add: settle_def p c)
  then show ?thesis
    by (simp add: read_events_def settled_stays)
qed

lemma read_events_error:
  "read_events (map StreamData chunks @ StreamError err # rest) = Some (Inl err)"
proof -
  let ?s = "foldl on_event \<lparr> contents = None, promise = None \<rparr> (map StreamData chunks)"
  have p: "promise ?s = None"
    by (simp add: foldl_data)
  have "promise (on_event ?s (StreamError err)) = Some (Inl err)"
    by (simp add: settle_def p)
  then show ?thesis
    by (simp add: read_events_def settled_stays)
qed

text \<open>While the stream has neither ended nor failed, the promise is pending.\<close>

lemma read_events_pending:
  "read_events (map StreamData chunks) = None"
  by (simp add: read_events_def foldl_data)

text \<open>
  Claim C4. When the stream emits the chunks \<open>c1, ..., cn\<close> and then ends, \<open>read\<close>
  resolves to the bytes of \<open>c1\<close>, ..., \<open>cn\<close> in that order; when it ends without a
  chunk, \<open>read\<close> resolves to the buffer of length zero; when it emits an error before
  it ends, after any number of chunks, \<open>read\<close> rejects with that error. Whatever the
  stream emits after that changes nothing. The one call on the client opens the stream
  on the path of the options.
\<close>

theorem read_concatenates_chunks:
  "(\<forall>chunks rest.
      file_createReadStream env (this_bucket this) (options_path options) =
        map StreamData chunks @ StreamEnd # rest \<longrightarrow>
      read env this options =
        (Some (Inr (concat chunks)),
         [FileCreateReadStream (this_bucket this) (options_path options)]))
   \<and> (\<forall>rest.
      file_createReadStream env (this_bucket this) (options_path options) = StreamEnd # rest \<longrightarrow>
      fst (read env this options) = Some (Inr []))
   \<and> (\<forall>chunks err rest.
      file_createReadStream env (this_bucket this) (options_path options) =
        map StreamData chunks @ StreamError err # rest \<longrightarrow>
      read env this options =
        (Some (Inl err), [FileCreateReadStream (this_bucket this) (options_path options)]))"
proof (intro conjI allI impI)
  fix rest
  assume "file_createReadStream env (this_bucket this) (options_path options) = StreamEnd # rest"
  then show "fst (read env this options) = Some (Inr [])"
    using read_events_end [of "[]" rest] by (simp add: read_def)
qed (simp_all add: read_def read_events_end read_events_error)

theorem read_concatenates_chunks_witness:
  "\<exists>this calls0.
      GStore_constructor config_minimal = (Inr this, calls0)
    \<and> read env_chunks this options_test =
        (Some (Inr [0x74, 0x65, 0x73, 0x74]),
         [FileCreateReadStream (this_bucket this) ''test.jpg''])
    \<and> fst (read env_test this options_test) = Some (Inr [])
    \<and> read env_failing this options_test =
        (Some (Inl (Error ''Stream error'')),
         [FileCreateReadStream (this_bucket this) ''test.jpg''])"
proof -
  from constructor_minimal obtain this calls0 where
    c: "GStore_constructor config_minimal = (Inr this, calls0)" by blast
  have s1: "file_createReadStream env_chunks (this_bucket this) (options_path options_test) =
      map StreamData chunks_test @ StreamEnd # []"
    by (simp add: env_chunks_def)
  have s2: "file_createReadStream env_test (this_bucket this) (options_path options_test) =
      StreamEnd # []"
    by (simp add: env_test_def)
  have s3: "file_createReadStream env_failing (this_bucket this) (options_path options_test) =
      map StreamData [] @ StreamError (Error ''Stream error'') # []"
    by (simp add: env_failing_def)
  from read_concatenates_chunks [of env_chunks this options_test] s1
  have r1: "read env_chunks this options_test =
      (Some (Inr (concat chunks_test)),
       [FileCreateReadStream (this_bucket this) (options_path options_test)])"
    by blast
  from read_concatenates_chunks [of env_test this options_test] s2
  have r2: "fst (read env_test this options_test) = Some (Inr [])"
    by blast
  from read_concatenates_chunks [of env_failing this options_test] s3
  have r3: "read env_failing this options_test =
      (Some (Inl (Error ''Stream error'')),
       [FileCreateReadStream (this_bucket this) (options_path options_test)])"
    by blast
  have p: "options_path options_test = ''test.jpg''"
    by (simp add: options_test_def)
  have k: "concat chunks_test = [0x74, 0x65, 0x73, 0x74]"
    by (simp add: chunks_test_def)
  from c r1 r2 r3 show ?thesis
    unfolding p k by blast
qed

end
